theory Spec2Isabelle
  imports Complex_Main "HOL-Library.Sublist"
begin

section \<open>Exceptions\<close>

text \<open>
  A raised Python exception, as far as \<^verbatim>\<open>except Exception as e\<close> can tell exceptions
  apart: \<open>Exception c m\<close> is an instance of \<^verbatim>\<open>Exception\<close> (class name \<open>c\<close>, message
  \<open>m\<close>); \<open>BaseException c m\<close> is an instance of a class that derives from
  \<^verbatim>\<open>BaseException\<close> but not from \<^verbatim>\<open>Exception\<close> (\<^verbatim>\<open>KeyboardInterrupt\<close>,
  \<^verbatim>\<open>SystemExit\<close>, \<^verbatim>\<open>GeneratorExit\<close>). A computation that may raise returns
  \<open>exc + 'a\<close>, with \<open>Inl\<close> for the raised exception.
\<close>

datatype exc = Exception string string | BaseException string string

section \<open>Process state\<close>

text \<open>
  Every call the program makes on a collaborator (the metrics library, the HTTP session,
  the HTML parser, the random generator, the clock, standard output), in program order.
\<close>

datatype call =
    Gauge_inc
  | Gauge_dec
  | Timer_enter
  | Timer_exit real
  | Scrapes_inc
  | Errors_inc
  | Session_get string
  | Soup string
  | Random_uniform real real
  | Time_sleep real
  | Print string
  | Start_http_server nat

text \<open>
  The module globals of \<^verbatim>\<open>example.py\<close> (lines 8 to 11) and what the process has written
  and called so far. A Prometheus summary keeps the count and the sum of its observations;
  the model keeps the observations themselves (count is \<open>length\<close>, sum is \<open>sum_list\<close>).
  Standard output is the list of the strings written, one for each call of \<^verbatim>\<open>print\<close> that
  completed; each is written followed by a newline, and may itself contain newlines.
  Python floats are modelled as reals.
\<close>

record state =
  SCRAPES_TOTAL :: int
  SCRAPE_ERRORS :: int
  SCRAPE_DURATION :: "real list"
  ACTIVE_SCRAPERS :: int
  stdout :: "string list"
  calls :: "call list"

definition initial :: state where
  "initial = \<lparr>SCRAPES_TOTAL = 0, SCRAPE_ERRORS = 0, SCRAPE_DURATION = [],
              ACTIVE_SCRAPERS = 0, stdout = [], calls = []\<rparr>"

definition log_call :: "call \<Rightarrow> state \<Rightarrow> state" where
  "log_call c st = st\<lparr>calls := calls st @ [c]\<rparr>"

text \<open>
  Modelled from the spec: the metric handles are objects of the metrics library
  (\<^verbatim>\<open>prometheus_client\<close>), which is not under src/. Section 4.2 of the spec gives their
  contract: \<^verbatim>\<open>increment\<close> and \<^verbatim>\<open>decrement\<close> move a value by one, \<^verbatim>\<open>observe-duration\<close>
  records one sample.
\<close>

definition SCRAPES_TOTAL_inc :: "state \<Rightarrow> state" where
  "SCRAPES_TOTAL_inc st = log_call Scrapes_inc (st\<lparr>SCRAPES_TOTAL := SCRAPES_TOTAL st + 1\<rparr>)"

definition SCRAPE_ERRORS_inc :: "state \<Rightarrow> state" where
  "SCRAPE_ERRORS_inc st = log_call Errors_inc (st\<lparr>SCRAPE_ERRORS := SCRAPE_ERRORS st + 1\<rparr>)"

definition ACTIVE_SCRAPERS_inc :: "state \<Rightarrow> state" where
  "ACTIVE_SCRAPERS_inc st = log_call Gauge_inc (st\<lparr>ACTIVE_SCRAPERS := ACTIVE_SCRAPERS st + 1\<rparr>)"

definition ACTIVE_SCRAPERS_dec :: "state \<Rightarrow> state" where
  "ACTIVE_SCRAPERS_dec st = log_call Gauge_dec (st\<lparr>ACTIVE_SCRAPERS := ACTIVE_SCRAPERS st - 1\<rparr>)"

definition SCRAPE_DURATION_observe :: "real \<Rightarrow> state \<Rightarrow> state" where
  "SCRAPE_DURATION_observe d st =
     log_call (Timer_exit d) (st\<lparr>SCRAPE_DURATION := SCRAPE_DURATION st @ [d]\<rparr>)"

text \<open>
  Modelled from the spec: \<^verbatim>\<open>print\<close> is Python's builtin, not under src/. The spec has it
  "emit a human-readable message" on standard output. The first argument is what the
  environment does at this call: \<open>Some e\<close> when the call raises \<open>e\<close> (a
  \<^verbatim>\<open>BrokenPipeError\<close> on a closed pipe, say), and then nothing is written.
\<close>

definition print :: "exc option \<Rightarrow> string \<Rightarrow> state \<Rightarrow> (exc + unit) \<times> state" where
  "print raised s st =
     (case raised of
        Some e \<Rightarrow> (Inl e, log_call (Print s) st)
      | None \<Rightarrow> (Inr (), log_call (Print s) (st\<lparr>stdout := stdout st @ [s]\<rparr>)))"

text \<open>
  Modelled from the spec: \<^verbatim>\<open>start_http_server\<close> is the metrics library's, not under src/;
  the spec has it "start listening on port P". The first argument is what the environment
  does at this call: \<open>Some e\<close> when the call raises \<open>e\<close> (the port is taken, say).
\<close>

definition start_http_server :: "exc option \<Rightarrow> nat \<Rightarrow> state \<Rightarrow> (exc + unit) \<times> state" where
  "start_http_server raised port st =
     (case raised of
        Some e \<Rightarrow> (Inl e, log_call (Start_http_server port) st)
      | None \<Rightarrow> (Inr (), log_call (Start_http_server port) st))"

section \<open>The environment of one scrape attempt\<close>

text \<open>
  What the outside world does during one call of \<^verbatim>\<open>scrape_page\<close>: the answer of
  \<^verbatim>\<open>self.session.get(url)\<close> (a raised exception or the response text), of
  \<^verbatim>\<open>BeautifulSoup(response.text, 'html.parser')\<close> and of \<^verbatim>\<open>time.sleep\<close> (\<open>Some e\<close>
  when the call raises \<open>e\<close>), the unit draw behind \<^verbatim>\<open>random.uniform\<close>, the two readings
  of the timer's clock, and, for the handler, the answer of \<^verbatim>\<open>str(e)\<close> (the text or a raised
  exception) and of \<^verbatim>\<open>print\<close> on the line it is given. The metric operations do not raise.
\<close>

record attempt =
  session_get :: "string \<Rightarrow> exc + string"
  BeautifulSoup :: "string \<Rightarrow> exc option"
  random_random :: real
  time_sleep :: "real \<Rightarrow> exc option"
  timer_start :: real
  timer_stop :: real
  str_result :: "exc \<Rightarrow> exc + string"
  print_result :: "string \<Rightarrow> exc option"

text \<open>
  Modelled from the spec: \<^verbatim>\<open>random.uniform\<close> is the standard library's, not under src/.
  The spec has the delay "drawn uniformly at random from the interval [0.5, 2.0]": the
  draw from \<open>[a, b]\<close> is the affine image of a unit draw \<open>r\<close>.
\<close>

definition uniform :: "real \<Rightarrow> real \<Rightarrow> real \<Rightarrow> real" where
  "uniform a b r = a + (b - a) * r"

section \<open>\<^verbatim>\<open>WebScraper.scrape_page\<close>\<close>

text \<open>
  Lines 23 to 26, the body of the \<^verbatim>\<open>with\<close> statement: the outcome and the calls made.
  The body touches no metric.
\<close>

definition block :: "attempt \<Rightarrow> string \<Rightarrow> (exc + unit) \<times> call list" where
  "block a url =
     (case session_get a url of
        Inl e \<Rightarrow> (Inl e, [Session_get url])
      | Inr body \<Rightarrow>
          (case BeautifulSoup a body of
             Some e \<Rightarrow> (Inl e, [Session_get url, Soup body])
           | None \<Rightarrow>
               (let d = uniform (1/2) 2 (random_random a) in
                case time_sleep a d of
                  Some e \<Rightarrow>
                    (Inl e, [Session_get url, Soup body, Random_uniform (1/2) 2, Time_sleep d])
                | None \<Rightarrow>
                    (Inr (), [Session_get url, Soup body, Random_uniform (1/2) 2, Time_sleep d]))))"

text \<open>
  Modelled from the spec: line 22, \<^verbatim>\<open>with SCRAPE_DURATION.time():\<close>. The context manager
  is the metrics library's, not under src/. The spec has it "begin timing" before the block
  and "stop timing and record the elapsed duration into ScrapeDuration" after it,
  "regardless of success or failure"; the library clamps a clock that went backwards to 0.
  The manager does not swallow the exception of the block.
\<close>

definition with_SCRAPE_DURATION_time :: "attempt \<Rightarrow> string \<Rightarrow> state \<Rightarrow> (exc + unit) \<times> state" where
  "with_SCRAPE_DURATION_time a url st =
     (let st1 = log_call Timer_enter st;
          (r, cs) = block a url;
          st2 = st1\<lparr>calls := calls st1 @ cs\<rparr>;
          duration = max (timer_stop a - timer_start a) 0
      in (r, SCRAPE_DURATION_observe duration st2))"

text \<open>Lines 20 to 29, the \<^verbatim>\<open>try\<close> suite.\<close>

definition try_suite :: "attempt \<Rightarrow> string \<Rightarrow> state \<Rightarrow> (exc + bool) \<times> state" where
  "try_suite a url st =
     (let st1 = ACTIVE_SCRAPERS_inc st;
          (r, st2) = with_SCRAPE_DURATION_time a url st1
      in case r of
           Inl e \<Rightarrow> (Inl e, st2)
         | Inr _ \<Rightarrow> (Inr True, SCRAPES_TOTAL_inc st2))"

text \<open>
  Lines 32 to 34, the suite of the handler: \<^verbatim>\<open>SCRAPE_ERRORS.inc()\<close>, then \<^verbatim>\<open>str(e)\<close> and
  \<^verbatim>\<open>print\<close>, which are not guarded: an exception either of them raises leaves the handler,
  after the error was counted.
\<close>

definition except_suite :: "attempt \<Rightarrow> string \<Rightarrow> exc \<Rightarrow> state \<Rightarrow> (exc + bool) \<times> state" where
  "except_suite a url e st =
     (let st1 = SCRAPE_ERRORS_inc st in
      case str_result a e of
        Inl e' \<Rightarrow> (Inl e', st1)
      | Inr s \<Rightarrow>
          (let line = ''Error scraping '' @ url @ '': '' @ s in
           case print (print_result a line) line st1 of
             (Inl e', st2) \<Rightarrow> (Inl e', st2)
           | (Inr _, st2) \<Rightarrow> (Inr False, st2)))"

text \<open>
  Lines 18 to 37: the \<^verbatim>\<open>try\<close> suite, the handler \<^verbatim>\<open>except Exception as e\<close> and the
  \<^verbatim>\<open>finally\<close> clause, which runs on every path and leaves the pending return value or
  exception as it is.
\<close>

definition scrape_page :: "attempt \<Rightarrow> string \<Rightarrow> state \<Rightarrow> (exc + bool) \<times> state" where
  "scrape_page a url st =
     (let (r, st1) = try_suite a url st;
          (r', st2) =
            (case r of
               Inl (Exception c m) \<Rightarrow> except_suite a url (Exception c m) st1
             | Inl (BaseException c m) \<Rightarrow> (Inl (BaseException c m), st1)
             | Inr b \<Rightarrow> (Inr b, st1))
      in (r', ACTIVE_SCRAPERS_dec st2))"

section \<open>\<^verbatim>\<open>main\<close>\<close>

text \<open>
  What the outside world does during one run of \<^verbatim>\<open>main\<close>: the answer of
  \<^verbatim>\<open>start_http_server(8000)\<close> and of the \<^verbatim>\<open>print\<close> of line 43, the environment of the
  \<open>k\<close>-th call of \<^verbatim>\<open>scrape_page\<close> in the life of the process, and the answer of the
  \<open>r\<close>-th call of \<^verbatim>\<open>time.sleep(60)\<close>.
\<close>

record world =
  start_result :: "exc option"
  startup_print_result :: "exc option"
  attempt_of :: "nat \<Rightarrow> attempt"
  pause_result :: "nat \<Rightarrow> exc option"

definition urls :: "string list" where
  "urls = [''http://example.com'', ''http://example.org'', ''http://example.net'']"

text \<open>
  Lines 57 and 58, \<^verbatim>\<open>for url in urls: scraper.scrape_page(url)\<close>, from the \<open>k\<close>-th call of
  \<^verbatim>\<open>scrape_page\<close> on; the loop returns the number of calls made so far. The boolean
  result is dropped; a raised exception leaves the loop.
\<close>

fun for_urls :: "(nat \<Rightarrow> attempt) \<Rightarrow> nat \<Rightarrow> string list \<Rightarrow> state \<Rightarrow> (exc + unit) \<times> nat \<times> state" where
  "for_urls env k [] st = (Inr (), k, st)"
| "for_urls env k (url # us) st =
     (case scrape_page (env k) url st of
        (Inl e, st') \<Rightarrow> (Inl e, Suc k, st')
      | (Inr _, st') \<Rightarrow> for_urls env (Suc k) us st')"

text \<open>
  Lines 57 to 59, one round: the \<^verbatim>\<open>for\<close> loop, then \<^verbatim>\<open>time.sleep(60)\<close>, which raises
  \<open>e\<close> when \<open>pause\<close> is \<open>Some e\<close>.
\<close>

definition one_round :: "(nat \<Rightarrow> attempt) \<Rightarrow> exc option \<Rightarrow> nat \<Rightarrow> string list \<Rightarrow> state \<Rightarrow> (exc + unit) \<times> nat \<times> state" where
  "one_round env pause k us st =
     (case for_urls env k us st of
        (Inl e, k', st') \<Rightarrow> (Inl e, k', st')
      | (Inr _, k', st') \<Rightarrow>
          (case pause of
             Some e \<Rightarrow> (Inl e, k', log_call (Time_sleep 60) st')
           | None \<Rightarrow> (Inr (), k', log_call (Time_sleep 60) st')))"

text \<open>
  Line 56, \<^verbatim>\<open>while True:\<close>, run for at most \<open>fuel\<close> rounds from round \<open>r\<close> on. The loop
  has no exit of its own: the result is \<open>None\<close> when it is still running after \<open>fuel\<close>
  rounds and \<open>Some e\<close> when the exception \<open>e\<close> left it.
\<close>

fun while_True :: "world \<Rightarrow> nat \<Rightarrow> nat \<Rightarrow> nat \<Rightarrow> string list \<Rightarrow> state \<Rightarrow> exc option \<times> nat \<times> state" where
  "while_True w 0 r k us st = (None, k, st)"
| "while_True w (Suc fuel) r k us st =
     (case one_round (attempt_of w) (pause_result w r) k us st of
        (Inl e, k', st') \<Rightarrow> (Some e, k', st')
      | (Inr _, k', st') \<Rightarrow> while_True w fuel (Suc r) k' us st')"

text \<open>
  Lines 40 to 59. An exception that \<^verbatim>\<open>main\<close> does not catch ends the process. Line 46
  builds the scraper and its HTTP session; it touches no metric and writes nothing, and is
  not a step of the model.
\<close>

definition main :: "world \<Rightarrow> nat \<Rightarrow> exc option \<times> nat \<times> state" where
  "main w fuel =
     (case start_http_server (start_result w) 8000 initial of
        (Inl e, st1) \<Rightarrow> (Some e, 0, st1)
      | (Inr _, st1) \<Rightarrow>
          (case print (startup_print_result w)
                  ''Prometheus metrics server started on port 8000'' st1 of
             (Inl e, st2) \<Rightarrow> (Some e, 0, st2)
           | (Inr _, st2) \<Rightarrow> while_True w fuel 0 0 urls st2))"

section \<open>Example environments\<close>

text \<open>\<^verbatim>\<open>str(e)\<close> of an exception whose text is its message.\<close>

definition str_message :: "exc \<Rightarrow> exc + string" where
  "str_message e = (case e of Exception c m \<Rightarrow> Inr m | BaseException c m \<Rightarrow> Inr m)"

definition attempt_ok :: attempt where
  "attempt_ok = \<lparr>session_get = (\<lambda>u. Inr ''<html></html>''), BeautifulSoup = (\<lambda>b. None),
                 random_random = 1/3, time_sleep = (\<lambda>d. None),
                 timer_start = 10, timer_stop = 23/2,
                 str_result = str_message, print_result = (\<lambda>s. None)\<rparr>"

definition attempt_refused :: attempt where
  "attempt_refused = attempt_ok\<lparr>session_get :=
     (\<lambda>u. Inl (Exception ''ConnectionError'' ''Connection refused''))\<rparr>"

definition attempt_interrupted :: attempt where
  "attempt_interrupted = attempt_ok\<lparr>time_sleep :=
     (\<lambda>d. Some (BaseException ''KeyboardInterrupt'' ''''))\<rparr>"

text \<open>The connection is refused and standard output is a closed pipe.\<close>

definition attempt_pipe :: attempt where
  "attempt_pipe = attempt_refused\<lparr>print_result :=
     (\<lambda>s. Some (Exception ''BrokenPipeError'' ''[Errno 32] Broken pipe''))\<rparr>"

text \<open>The text of the exception has two lines.\<close>

definition attempt_two_lines :: attempt where
  "attempt_two_lines = attempt_ok\<lparr>session_get :=
     (\<lambda>u. Inl (Exception ''HTTPError'' (''Bad Gateway'' @ [CHR 0x0A] @ ''try later'')))\<rparr>"

definition env_example :: "nat \<Rightarrow> attempt" where
  "env_example k = (if k = 1 then attempt_refused else attempt_ok)"

definition world_example :: world where
  "world_example = \<lparr>start_result = None, startup_print_result = None,
                    attempt_of = env_example, pause_result = (\<lambda>r. None)\<rparr>"

section \<open>The metrics of the module\<close>

text \<open>
  Lines 8 to 11: the four constructor calls of the module, each with the metric's name and
  its help text, and the global each result is bound to. The module's top level runs once,
  when the module is loaded.
\<close>

datatype metric = Counter string string | Summary string string | Gauge string string

fun metric_name :: "metric \<Rightarrow> string" where
  "metric_name (Counter n d) = n"
| "metric_name (Summary n d) = n"
| "metric_name (Gauge n d) = n"

definition module_globals :: "(string \<times> metric) list" where
  "module_globals =
     [(''SCRAPES_TOTAL'', Counter ''scraper_pages_scraped_total'' ''Total number of pages scraped''),
      (''SCRAPE_ERRORS'', Counter ''scraper_errors_total'' ''Total number of scraping errors''),
      (''SCRAPE_DURATION'', Summary ''scraper_scrape_duration_seconds'' ''Time spent scraping pages''),
      (''ACTIVE_SCRAPERS'', Gauge ''scraper_active_scrapers'' ''Number of active scrapers'')]"

section \<open>Reading the log of calls\<close>

text \<open>The URLs fetched, in order: the arguments of the calls of \<^verbatim>\<open>session.get\<close>.\<close>

fun fetched :: "call list \<Rightarrow> string list" where
  "fetched [] = []"
| "fetched (Session_get u # cs) = u # fetched cs"
| "fetched (c # cs) = fetched cs"

text \<open>The calls one attempt makes: those of \<^verbatim>\<open>scrape_page\<close> on an empty log.\<close>

definition attempt_calls :: "attempt \<Rightarrow> string \<Rightarrow> call list" where
  "attempt_calls a url = calls (snd (scrape_page a url initial))"

text \<open>
  The calls of a round that visits the URLs \<open>us\<close> from the \<open>k\<close>-th call of
  \<^verbatim>\<open>scrape_page\<close> on: the calls of one attempt for each URL, in the order of the list, and
  then the pause.
\<close>

definition round_calls :: "(nat \<Rightarrow> attempt) \<Rightarrow> nat \<Rightarrow> string list \<Rightarrow> call list" where
  "round_calls env k us =
     concat (map (\<lambda>(i, u). attempt_calls (env i) u) (enumerate k us)) @ [Time_sleep 60]"

text \<open>
  The environment lets the attempt return: the timed block completes, or it raises an
  instance of \<^verbatim>\<open>Exception\<close> and neither \<^verbatim>\<open>str(e)\<close> nor \<^verbatim>\<open>print\<close> raises in the handler.
\<close>

definition attempt_returns :: "attempt \<Rightarrow> string \<Rightarrow> bool" where
  "attempt_returns a url =
     (case fst (block a url) of
        Inr u \<Rightarrow> True
      | Inl (BaseException c m) \<Rightarrow> False
      | Inl (Exception c m) \<Rightarrow>
          (case str_result a (Exception c m) of
             Inl e \<Rightarrow> False
           | Inr s \<Rightarrow> print_result a (''Error scraping '' @ url @ '': '' @ s) = None))"

text \<open>A line of the form \<^verbatim>\<open>Error scraping {url}: ...\<close> for one of the URLs \<open>us\<close>.\<close>

definition error_line :: "string list \<Rightarrow> string \<Rightarrow> bool" where
  "error_line us l = list_ex (\<lambda>u. prefix (''Error scraping '' @ u @ '': '') l) us"

text \<open>The number of lines that one call of \<^verbatim>\<open>print\<close> on \<open>s\<close> writes.\<close>

definition lines_of :: "string \<Rightarrow> nat" where
  "lines_of s = Suc (count_list s (CHR 0x0A))"

section \<open>Relations on states\<close>

text \<open>Neither counter is smaller in \<open>st'\<close> than in \<open>st\<close>.\<close>

definition counters_le :: "state \<Rightarrow> state \<Rightarrow> bool" where
  "counters_le st st' =
     (SCRAPES_TOTAL st \<le> SCRAPES_TOTAL st' \<and> SCRAPE_ERRORS st \<le> SCRAPE_ERRORS st')"

text \<open>
  The output is the startup line of \<^verbatim>\<open>main\<close> (line 43) followed by error lines for the
  URLs \<open>us\<close> only, at most one for each error counted.
\<close>

definition stdout_inv :: "string list \<Rightarrow> state \<Rightarrow> bool" where
  "stdout_inv us st =
     (stdout st \<noteq> [] \<and>
      hd (stdout st) = ''Prometheus metrics server started on port 8000'' \<and>
      list_all (error_line us) (tl (stdout st)) \<and>
      int (length (tl (stdout st))) \<le> SCRAPE_ERRORS st)"

text \<open>The summary has one observation for each attempt counted.\<close>

definition count_inv :: "state \<Rightarrow> bool" where
  "count_inv st = (int (length (SCRAPE_DURATION st)) = SCRAPES_TOTAL st + SCRAPE_ERRORS st)"

text \<open>
  While the loop runs: one observation for each attempt counted, and one string written
  for the startup and for each error counted.
\<close>

definition running_inv :: "state \<Rightarrow> bool" where
  "running_inv st =
     (count_inv st \<and> int (length (stdout st)) = SCRAPE_ERRORS st + 1)"

text \<open>What the timer of an attempt observes: the clock difference, clamped to 0.\<close>

definition observed :: "attempt \<Rightarrow> real" where
  "observed a = max (timer_stop a - timer_start a) 0"

section \<open>What one attempt does, path by path\<close>

lemma scrape_page_success:
  assumes "fst (block a url) = Inr ()"
  shows "scrape_page a url st =
    (Inr True,
     st\<lparr>SCRAPES_TOTAL := SCRAPES_TOTAL st + 1,
        SCRAPE_DURATION := SCRAPE_DURATION st @ [observed a],
        calls := calls st @ [Gauge_inc, Timer_enter] @ snd (block a url)
                   @ [Timer_exit (observed a), Scrapes_inc, Gauge_dec]\<rparr>)"
  using assms
  by (cases "block a url")
     (simp add: scrape_page_def try_suite_def with_SCRAPE_DURATION_time_def
        ACTIVE_SCRAPERS_inc_def ACTIVE_SCRAPERS_dec_def SCRAPES_TOTAL_inc_def
        SCRAPE_DURATION_observe_def log_call_def observed_def Let_def)

lemma scrape_page_propagate:
  assumes "fst (block a url) = Inl (BaseException c m)"
  shows "scrape_page a url st =
    (Inl (BaseException c m),
     st\<lparr>SCRAPE_DURATION := SCRAPE_DURATION st @ [observed a],
        calls := calls st @ [Gauge_inc, Timer_enter] @ snd (block a url)
                   @ [Timer_exit (observed a), Gauge_dec]\<rparr>)"
  using assms
  by (cases "block a url")
     (simp add: scrape_page_def try_suite_def with_SCRAPE_DURATION_time_def
        ACTIVE_SCRAPERS_inc_def ACTIVE_SCRAPERS_dec_def
        SCRAPE_DURATION_observe_def log_call_def observed_def Let_def)

lemma scrape_page_failure:
  assumes "fst (block a url) = Inl (Exception c m)"
    and "str_result a (Exception c m) = Inr s"
    and "print_result a (''Error scraping '' @ url @ '': '' @ s) = None"
  shows "scrape_page a url st =
    (Inr False,
     st\<lparr>SCRAPE_ERRORS := SCRAPE_ERRORS st + 1,
        SCRAPE_DURATION := SCRAPE_DURATION st @ [observed a],
        stdout := stdout st @ [''Error scraping '' @ url @ '': '' @ s],
        calls := calls st @ [Gauge_inc, Timer_enter] @ snd (block a url)
                   @ [Timer_exit (observed a), Errors_inc,
                      Print (''Error scraping '' @ url @ '': '' @ s), Gauge_dec]\<rparr>)"
  using assms
  by (cases "block a url")
     (simp add: scrape_page_def try_suite_def with_SCRAPE_DURATION_time_def except_suite_def
        ACTIVE_SCRAPERS_inc_def ACTIVE_SCRAPERS_dec_def SCRAPE_ERRORS_inc_def print_def
        SCRAPE_DURATION_observe_def log_call_def observed_def Let_def)

lemma scrape_page_str_raises:
  assumes "fst (block a url) = Inl (Exception c m)"
    and "str_result a (Exception c m) = Inl e"
  shows "scrape_page a url st =
    (Inl e,
     st\<lparr>SCRAPE_ERRORS := SCRAPE_ERRORS st + 1,
        SCRAPE_DURATION := SCRAPE_DURATION st @ [observed a],
        calls := calls st @ [Gauge_inc, Timer_enter] @ snd (block a url)
                   @ [Timer_exit (observed a), Errors_inc, Gauge_dec]\<rparr>)"
  using assms
  by (cases "block a url")
     (simp add: scrape_page_def try_suite_def with_SCRAPE_DURATION_time_def except_suite_def
        ACTIVE_SCRAPERS_inc_def ACTIVE_SCRAPERS_dec_def SCRAPE_ERRORS_inc_def
        SCRAPE_DURATION_observe_def log_call_def observed_def Let_def)

lemma scrape_page_print_raises:
  assumes "fst (block a url) = Inl (Exception c m)"
    and "str_result a (Exception c m) = Inr s"
    and "print_result a (''Error scraping '' @ url @ '': '' @ s) = Some e"
  shows "scrape_page a url st =
    (Inl e,
     st\<lparr>SCRAPE_ERRORS := SCRAPE_ERRORS st + 1,
        SCRAPE_DURATION := SCRAPE_DURATION st @ [observed a],
        calls := calls st @ [Gauge_inc, Timer_enter] @ snd (block a url)
                   @ [Timer_exit (observed a), Errors_inc,
                      Print (''Error scraping '' @ url @ '': '' @ s), Gauge_dec]\<rparr>)"
  using assms
  by (cases "block a url")
     (simp add: scrape_page_def try_suite_def with_SCRAPE_DURATION_time_def except_suite_def
        ACTIVE_SCRAPERS_inc_def ACTIVE_SCRAPERS_dec_def SCRAPE_ERRORS_inc_def print_def
        SCRAPE_DURATION_observe_def log_call_def observed_def Let_def)

lemmas scrape_page_paths =
  scrape_page_success scrape_page_propagate scrape_page_failure
  scrape_page_str_raises scrape_page_print_raises

lemma attempt_cases:
  obtains (success) "fst (block a url) = Inr ()"
  | (propagate) c m where "fst (block a url) = Inl (BaseException c m)"
  | (failure) c m s where "fst (block a url) = Inl (Exception c m)"
      "str_result a (Exception c m) = Inr s"
      "print_result a (''Error scraping '' @ url @ '': '' @ s) = None"
  | (str_raises) c m e where "fst (block a url) = Inl (Exception c m)"
      "str_result a (Exception c m) = Inl e"
  | (print_raises) c m s e where "fst (block a url) = Inl (Exception c m)"
      "str_result a (Exception c m) = Inr s"
      "print_result a (''Error scraping '' @ url @ '': '' @ s) = Some e"
proof (cases "fst (block a url)")
  case (Inr u)
  then show ?thesis by (auto intro: success)
next
  case (Inl x)
  show ?thesis
  proof (cases x)
    case (BaseException c m)
    with Inl show ?thesis by (auto intro: propagate)
  next
    case (Exception c m)
    show ?thesis
    proof (cases "str_result a (Exception c m)")
      case str: (Inl e)
      with Inl Exception show ?thesis by (auto intro: str_raises)
    next
      case str: (Inr s)
      show ?thesis
      proof (cases "print_result a (''Error scraping '' @ url @ '': '' @ s)")
        case None
        with Inl Exception str show ?thesis by (auto intro: failure)
      next
        case (Some e)
        with Inl Exception str show ?thesis by (auto intro: print_raises)
      qed
    qed
  qed
qed

lemma block_no_gauge:
  "Gauge_inc \<notin> set (snd (block a url)) \<and> Gauge_dec \<notin> set (snd (block a url))"
  by (simp add: block_def Let_def split: sum.split option.split)

lemma block_ok:
  "block attempt_ok u =
     (Inr (), [Session_get u, Soup ''<html></html>'', Random_uniform (1/2) 2, Time_sleep 1])"
  by (simp add: block_def attempt_ok_def uniform_def)

lemma block_refused:
  "block attempt_refused u =
     (Inl (Exception ''ConnectionError'' ''Connection refused''), [Session_get u])"
  by (simp add: block_def attempt_refused_def attempt_ok_def)

lemma block_interrupted:
  "block attempt_interrupted u =
     (Inl (BaseException ''KeyboardInterrupt'' ''''),
      [Session_get u, Soup ''<html></html>'', Random_uniform (1/2) 2, Time_sleep 1])"
  by (simp add: block_def attempt_interrupted_def attempt_ok_def uniform_def)

lemma block_pipe:
  "block attempt_pipe u =
     (Inl (Exception ''ConnectionError'' ''Connection refused''), [Session_get u])"
  by (simp add: block_def attempt_pipe_def attempt_refused_def attempt_ok_def)

lemma block_two_lines:
  "block attempt_two_lines u =
     (Inl (Exception ''HTTPError'' (''Bad Gateway'' @ [CHR 0x0A] @ ''try later'')),
      [Session_get u])"
  by (simp add: block_def attempt_two_lines_def attempt_ok_def)

lemma handler_example:
  "str_result attempt_refused e = str_message e" "print_result attempt_refused l = None"
  "str_result attempt_pipe e = str_message e"
  "print_result attempt_pipe l = Some (Exception ''BrokenPipeError'' ''[Errno 32] Broken pipe'')"
  "str_result attempt_two_lines e = str_message e" "print_result attempt_two_lines l = None"
  "str_message (Exception c m) = Inr m"
  by (simp_all add: attempt_ok_def attempt_refused_def attempt_pipe_def attempt_two_lines_def
        str_message_def)

lemma timers_example:
  "timer_start attempt_ok = 10" "timer_stop attempt_ok = 23/2"
  "timer_start attempt_refused = 10" "timer_stop attempt_refused = 23/2"
  "timer_start attempt_interrupted = 10" "timer_stop attempt_interrupted = 23/2"
  "timer_start attempt_pipe = 10" "timer_stop attempt_pipe = 23/2"
  "timer_start attempt_two_lines = 10" "timer_stop attempt_two_lines = 23/2"
  by (simp_all add: attempt_ok_def attempt_refused_def attempt_interrupted_def attempt_pipe_def
        attempt_two_lines_def)

lemma scrape_page_ok:
  "scrape_page attempt_ok u st =
    (Inr True,
     st\<lparr>SCRAPES_TOTAL := SCRAPES_TOTAL st + 1,
        SCRAPE_DURATION := SCRAPE_DURATION st @ [3/2],
        calls := calls st @ [Gauge_inc, Timer_enter, Session_get u, Soup ''<html></html>'',
          Random_uniform (1/2) 2, Time_sleep 1, Timer_exit (3/2), Scrapes_inc, Gauge_dec]\<rparr>)"
  using scrape_page_success [of attempt_ok u st]
  by (simp add: block_ok observed_def timers_example)

lemma scrape_page_refused:
  "scrape_page attempt_refused u st =
    (Inr False,
     st\<lparr>SCRAPE_ERRORS := SCRAPE_ERRORS st + 1,
        SCRAPE_DURATION := SCRAPE_DURATION st @ [3/2],
        stdout := stdout st @ [''Error scraping '' @ u @ '': Connection refused''],
        calls := calls st @ [Gauge_inc, Timer_enter, Session_get u, Timer_exit (3/2), Errors_inc,
          Print (''Error scraping '' @ u @ '': Connection refused''), Gauge_dec]\<rparr>)"
  using scrape_page_failure [of attempt_refused u "''ConnectionError''" "''Connection refused''"
      "''Connection refused''" st]
  by (simp add: block_refused observed_def timers_example handler_example)

lemma scrape_page_interrupted:
  "scrape_page attempt_interrupted u st =
    (Inl (BaseException ''KeyboardInterrupt'' ''''),
     st\<lparr>SCRAPE_DURATION := SCRAPE_DURATION st @ [3/2],
        calls := calls st @ [Gauge_inc, Timer_enter, Session_get u, Soup ''<html></html>'',
          Random_uniform (1/2) 2, Time_sleep 1, Timer_exit (3/2), Gauge_dec]\<rparr>)"
  using scrape_page_propagate [of attempt_interrupted u "''KeyboardInterrupt''" "''''" st]
  by (simp add: block_interrupted observed_def timers_example)

lemma scrape_page_pipe:
  "scrape_page attempt_pipe u st =
    (Inl (Exception ''BrokenPipeError'' ''[Errno 32] Broken pipe''),
     st\<lparr>SCRAPE_ERRORS := SCRAPE_ERRORS st + 1,
        SCRAPE_DURATION := SCRAPE_DURATION st @ [3/2],
        calls := calls st @ [Gauge_inc, Timer_enter, Session_get u, Timer_exit (3/2), Errors_inc,
          Print (''Error scraping '' @ u @ '': Connection refused''), Gauge_dec]\<rparr>)"
  using scrape_page_print_raises [of attempt_pipe u "''ConnectionError''" "''Connection refused''"
      "''Connection refused''" "Exception ''BrokenPipeError'' ''[Errno 32] Broken pipe''" st]
  by (simp add: block_pipe observed_def timers_example handler_example)

lemma scrape_page_two_lines:
  "scrape_page attempt_two_lines u st =
    (Inr False,
     st\<lparr>SCRAPE_ERRORS := SCRAPE_ERRORS st + 1,
        SCRAPE_DURATION := SCRAPE_DURATION st @ [3/2],
        stdout := stdout st
          @ [''Error scraping '' @ u @ '': Bad Gateway'' @ [CHR 0x0A] @ ''try later''],
        calls := calls st @ [Gauge_inc, Timer_enter, Session_get u, Timer_exit (3/2), Errors_inc,
          Print (''Error scraping '' @ u @ '': Bad Gateway'' @ [CHR 0x0A] @ ''try later''),
          Gauge_dec]\<rparr>)"
  using scrape_page_failure [of attempt_two_lines u "''HTTPError''"
      "''Bad Gateway'' @ [CHR 0x0A] @ ''try later''"
      "''Bad Gateway'' @ [CHR 0x0A] @ ''try later''" st]
  by (simp add: block_two_lines observed_def timers_example handler_example)

section \<open>The gauge of active scrapers\<close>

text \<open>
  Claim C1. Every call of \<^verbatim>\<open>scrape_page\<close>, whether the timed block completes, raises an
  \<^verbatim>\<open>Exception\<close> or raises any other exception, increments the gauge \<^verbatim>\<open>ACTIVE_SCRAPERS\<close>
  exactly once, as its first call, and decrements it exactly once, as its last call; the
  gauge's value after the call is its value before the call.
\<close>

theorem scrape_page_gauge_paired:
  "ACTIVE_SCRAPERS (snd (scrape_page a url st)) = ACTIVE_SCRAPERS st \<and>
   (\<exists>mid. calls (snd (scrape_page a url st)) = calls st @ [Gauge_inc] @ mid @ [Gauge_dec]
      \<and> Gauge_inc \<notin> set mid \<and> Gauge_dec \<notin> set mid)"
proof (cases a url rule: attempt_cases)
  case success
  show ?thesis
    unfolding scrape_page_success [OF success]
    using block_no_gauge [of a url]
    by (intro conjI exI [of _ "[Timer_enter] @ snd (block a url)
          @ [Timer_exit (observed a), Scrapes_inc]"]) simp_all
next
  case (propagate c m)
  show ?thesis
    unfolding scrape_page_propagate [OF propagate]
    using block_no_gauge [of a url]
    by (intro conjI exI [of _ "[Timer_enter] @ snd (block a url)
          @ [Timer_exit (observed a)]"]) simp_all
next
  case (failure c m s)
  show ?thesis
    unfolding scrape_page_failure [OF failure]
    using block_no_gauge [of a url]
    by (intro conjI exI [of _ "[Timer_enter] @ snd (block a url)
          @ [Timer_exit (observed a), Errors_inc,
             Print (''Error scraping '' @ url @ '': '' @ s)]"]) simp_all
next
  case (str_raises c m e)
  show ?thesis
    unfolding scrape_page_str_raises [OF str_raises]
    using block_no_gauge [of a url]
    by (intro conjI exI [of _ "[Timer_enter] @ snd (block a url)
          @ [Timer_exit (observed a), Errors_inc]"]) simp_all
next
  case (print_raises c m s e)
  show ?thesis
    unfolding scrape_page_print_raises [OF print_raises]
    using block_no_gauge [of a url]
    by (intro conjI exI [of _ "[Timer_enter] @ snd (block a url)
          @ [Timer_exit (observed a), Errors_inc,
             Print (''Error scraping '' @ url @ '': '' @ s)]"]) simp_all
qed

section \<open>The two counters\<close>

text \<open>
  Claim C2, as the code has it. When the timed block completes, \<^verbatim>\<open>SCRAPES_TOTAL\<close> grows by
  one and \<^verbatim>\<open>SCRAPE_ERRORS\<close> is unchanged. When the block raises an instance of
  \<^verbatim>\<open>Exception\<close>, \<^verbatim>\<open>SCRAPE_ERRORS\<close> grows by one and \<^verbatim>\<open>SCRAPES_TOTAL\<close> is unchanged,
  whether the handler then completes or raises. When the block raises an exception that is
  not an instance of \<^verbatim>\<open>Exception\<close>, neither counter changes. So exactly one of the two
  counters grows, by one, unless the block raises an exception that is not an instance of
  \<^verbatim>\<open>Exception\<close>, and then none does.
\<close>

theorem scrape_page_counts:
  "(fst (block a url) = Inr () \<longrightarrow>
      SCRAPES_TOTAL (snd (scrape_page a url st)) = SCRAPES_TOTAL st + 1 \<and>
      SCRAPE_ERRORS (snd (scrape_page a url st)) = SCRAPE_ERRORS st) \<and>
   (\<forall>c m. fst (block a url) = Inl (Exception c m) \<longrightarrow>
      SCRAPE_ERRORS (snd (scrape_page a url st)) = SCRAPE_ERRORS st + 1 \<and>
      SCRAPES_TOTAL (snd (scrape_page a url st)) = SCRAPES_TOTAL st) \<and>
   (\<forall>c m. fst (block a url) = Inl (BaseException c m) \<longrightarrow>
      SCRAPE_ERRORS (snd (scrape_page a url st)) = SCRAPE_ERRORS st \<and>
      SCRAPES_TOTAL (snd (scrape_page a url st)) = SCRAPES_TOTAL st) \<and>
   SCRAPES_TOTAL (snd (scrape_page a url st)) + SCRAPE_ERRORS (snd (scrape_page a url st)) =
     SCRAPES_TOTAL st + SCRAPE_ERRORS st
       + (case fst (block a url) of
            Inl (Exception c m) \<Rightarrow> 1
          | Inl (BaseException c m) \<Rightarrow> 0
          | Inr u \<Rightarrow> 1)"
  by (cases a url rule: attempt_cases) (simp_all add: scrape_page_paths)

theorem scrape_page_counts_witness:
  "fst (block attempt_ok ''http://example.com'') = Inr () \<and>
   SCRAPES_TOTAL (snd (scrape_page attempt_ok ''http://example.com'' initial)) = 1 \<and>
   SCRAPE_ERRORS (snd (scrape_page attempt_ok ''http://example.com'' initial)) = 0 \<and>
   fst (block attempt_refused ''http://example.com'') =
     Inl (Exception ''ConnectionError'' ''Connection refused'') \<and>
   SCRAPE_ERRORS (snd (scrape_page attempt_refused ''http://example.com'' initial)) = 1 \<and>
   SCRAPES_TOTAL (snd (scrape_page attempt_refused ''http://example.com'' initial)) = 0 \<and>
   fst (block attempt_pipe ''http://example.com'') =
     Inl (Exception ''ConnectionError'' ''Connection refused'') \<and>
   fst (scrape_page attempt_pipe ''http://example.com'' initial) =
     Inl (Exception ''BrokenPipeError'' ''[Errno 32] Broken pipe'') \<and>
   SCRAPE_ERRORS (snd (scrape_page attempt_pipe ''http://example.com'' initial)) = 1 \<and>
   SCRAPES_TOTAL (snd (scrape_page attempt_pipe ''http://example.com'' initial)) = 0 \<and>
   fst (block attempt_interrupted ''http://example.com'') =
     Inl (BaseException ''KeyboardInterrupt'' '''') \<and>
   SCRAPE_ERRORS (snd (scrape_page attempt_interrupted ''http://example.com'' initial)) = 0 \<and>
   SCRAPES_TOTAL (snd (scrape_page attempt_interrupted ''http://example.com'' initial)) = 0"
  using scrape_page_counts [of attempt_ok "''http://example.com''" initial]
    scrape_page_counts [of attempt_refused "''http://example.com''" initial]
    scrape_page_counts [of attempt_pipe "''http://example.com''" initial]
    scrape_page_counts [of attempt_interrupted "''http://example.com''" initial]
  by (simp add: block_ok block_refused block_pipe block_interrupted scrape_page_pipe initial_def)

text \<open>
  Claim C2 as stated fails: a \<^verbatim>\<open>KeyboardInterrupt\<close> raised in \<^verbatim>\<open>time.sleep\<close> is an exception
  raised during the attempt, and after it neither counter has moved.
\<close>

theorem scrape_page_interrupted_counts_nothing:
  "fst (block attempt_interrupted ''http://example.com'') =
     Inl (BaseException ''KeyboardInterrupt'' '''') \<and>
   SCRAPE_ERRORS (snd (scrape_page attempt_interrupted ''http://example.com'' initial)) =
     SCRAPE_ERRORS initial \<and>
   SCRAPES_TOTAL (snd (scrape_page attempt_interrupted ''http://example.com'' initial)) =
     SCRAPES_TOTAL initial"
  by (simp add: block_interrupted scrape_page_interrupted)

section \<open>The result of an attempt\<close>

text \<open>
  Claim C3, as the code has it. \<^verbatim>\<open>scrape_page\<close> catches every instance of \<^verbatim>\<open>Exception\<close>
  that the network GET, the HTML parse or the simulated delay raises. It returns \<^verbatim>\<open>True\<close>
  exactly when the timed block completes, and \<^verbatim>\<open>False\<close> when the block raises an instance
  of \<^verbatim>\<open>Exception\<close> and the handler completes. It raises to its caller an exception of the
  block that is not an instance of \<^verbatim>\<open>Exception\<close>, and the exception that \<^verbatim>\<open>str(e)\<close> or
  \<^verbatim>\<open>print\<close> raises inside the handler, whatever its class.
\<close>

theorem scrape_page_result:
  "fst (scrape_page a url st) =
     (case fst (block a url) of
        Inr u \<Rightarrow> Inr True
      | Inl (BaseException c m) \<Rightarrow> Inl (BaseException c m)
      | Inl (Exception c m) \<Rightarrow>
          (case str_result a (Exception c m) of
             Inl e \<Rightarrow> Inl e
           | Inr s \<Rightarrow>
               (case print_result a (''Error scraping '' @ url @ '': '' @ s) of
                  Some e \<Rightarrow> Inl e
                | None \<Rightarrow> Inr False))) \<and>
   (fst (scrape_page a url st) = Inr True) = (fst (block a url) = Inr ())"
  by (cases a url rule: attempt_cases) (simp_all add: scrape_page_paths)

text \<open>
  Claim C3 as stated fails: the \<^verbatim>\<open>KeyboardInterrupt\<close> raised by the simulated delay
  reaches the caller of \<^verbatim>\<open>scrape_page\<close>.
\<close>

theorem scrape_page_raises_keyboard_interrupt:
  "fst (scrape_page attempt_interrupted ''http://example.com'' initial) =
     Inl (BaseException ''KeyboardInterrupt'' '''')"
  by (simp add: scrape_page_interrupted)

section \<open>Exceptions outside \<^verbatim>\<open>Exception\<close>\<close>

text \<open>
  Claim C10. When the timed block raises an exception that is not an instance of
  \<^verbatim>\<open>Exception\<close>, \<^verbatim>\<open>scrape_page\<close> raises it to its caller, neither \<^verbatim>\<open>SCRAPES_TOTAL\<close> nor
  \<^verbatim>\<open>SCRAPE_ERRORS\<close> changes and nothing is printed, and the \<^verbatim>\<open>finally\<close> clause still
  decrements \<^verbatim>\<open>ACTIVE_SCRAPERS\<close>, as the last call, so that the gauge is back at its value
  before the call.
\<close>

theorem scrape_page_base_exception:
  assumes "fst (block a url) = Inl (BaseException c m)"
  shows "fst (scrape_page a url st) = Inl (BaseException c m) \<and>
    SCRAPES_TOTAL (snd (scrape_page a url st)) = SCRAPES_TOTAL st \<and>
    SCRAPE_ERRORS (snd (scrape_page a url st)) = SCRAPE_ERRORS st \<and>
    stdout (snd (scrape_page a url st)) = stdout st \<and>
    ACTIVE_SCRAPERS (snd (scrape_page a url st)) = ACTIVE_SCRAPERS st \<and>
    calls (snd (scrape_page a url st)) =
      calls st @ [Gauge_inc, Timer_enter] @ snd (block a url)
        @ [Timer_exit (max (timer_stop a - timer_start a) 0), Gauge_dec]"
  using assms by (simp add: scrape_page_propagate observed_def)

theorem scrape_page_base_exception_witness:
  "fst (block attempt_interrupted ''http://example.org'') =
     Inl (BaseException ''KeyboardInterrupt'' '''') \<and>
   fst (scrape_page attempt_interrupted ''http://example.org'' initial) =
     Inl (BaseException ''KeyboardInterrupt'' '''') \<and>
   SCRAPES_TOTAL (snd (scrape_page attempt_interrupted ''http://example.org'' initial)) = 0 \<and>
   SCRAPE_ERRORS (snd (scrape_page attempt_interrupted ''http://example.org'' initial)) = 0 \<and>
   ACTIVE_SCRAPERS (snd (scrape_page attempt_interrupted ''http://example.org'' initial)) = 0 \<and>
   calls (snd (scrape_page attempt_interrupted ''http://example.org'' initial)) =
     [Gauge_inc, Timer_enter, Session_get ''http://example.org'', Soup ''<html></html>'',
      Random_uniform (1/2) 2, Time_sleep 1, Timer_exit (3/2), Gauge_dec]"
  using scrape_page_base_exception [of attempt_interrupted "''http://example.org''"
      "''KeyboardInterrupt''" "''''" initial]
  by (simp add: block_interrupted initial_def timers_example)

section \<open>The calls of the loop\<close>

lemma scrape_page_calls:
  "calls (snd (scrape_page a url st)) = calls st @ attempt_calls a url"
  by (cases a url rule: attempt_cases)
     (simp_all add: attempt_calls_def scrape_page_paths initial_def)

lemma fetched_append: "fetched (xs @ ys) = fetched xs @ fetched ys"
  by (induction xs rule: fetched.induct) simp_all

lemma fetched_block: "fetched (snd (block a url)) = [url]"
  by (simp add: block_def Let_def split: sum.split option.split)

lemma fetched_attempt_calls: "fetched (attempt_calls a url) = [url]"
  by (cases a url rule: attempt_cases)
     (simp_all add: attempt_calls_def scrape_page_paths initial_def fetched_append fetched_block)

lemma fetched_attempts:
  "fetched (concat (map (\<lambda>(i, u). attempt_calls (env i) u) (enumerate k us))) = us"
  by (induction us arbitrary: k) (simp_all add: fetched_append fetched_attempt_calls)

lemma fetched_round_calls: "fetched (round_calls env k us) = us"
  by (simp add: round_calls_def fetched_append fetched_attempts)

lemma attempt_returns_iff:
  "attempt_returns a url = (case fst (scrape_page a url st) of Inl e \<Rightarrow> False | Inr b \<Rightarrow> True)"
  by (cases a url rule: attempt_cases) (simp_all add: attempt_returns_def scrape_page_paths)

lemma for_urls_prefix:
  "\<exists>n\<le>length us.
     fst (snd (for_urls env k us st)) = k + n \<and>
     calls (snd (snd (for_urls env k us st))) =
       calls st @ concat (map (\<lambda>(i, u). attempt_calls (env i) u) (enumerate k (take n us))) \<and>
     (fst (for_urls env k us st) = Inr () \<longrightarrow> n = length us)"
proof (induction us arbitrary: k st)
  case Nil
  show ?case by simp
next
  case (Cons url us)
  obtain r st' where sp: "scrape_page (env k) url st = (r, st')"
    by (cases "scrape_page (env k) url st")
  have cs: "calls st' = calls st @ attempt_calls (env k) url"
    using scrape_page_calls [of "env k" url st] sp by simp
  show ?case
  proof (cases r)
    case (Inl e)
    with sp cs show ?thesis
      by (intro exI [of _ 1]) simp
  next
    case (Inr b)
    from Cons.IH [of "Suc k" st'] obtain n where n: "n \<le> length us"
      "fst (snd (for_urls env (Suc k) us st')) = Suc k + n"
      "calls (snd (snd (for_urls env (Suc k) us st'))) =
         calls st' @ concat (map (\<lambda>(i, u). attempt_calls (env i) u) (enumerate (Suc k) (take n us)))"
      "fst (for_urls env (Suc k) us st') = Inr () \<longrightarrow> n = length us"
      by blast
    with sp cs Inr show ?thesis
      by (intro exI [of _ "Suc n"]) simp
  qed
qed

lemma for_urls_completes:
  "list_all (\<lambda>(i, u). attempt_returns (env i) u) (enumerate k us) \<Longrightarrow>
     fst (for_urls env k us st) = Inr ()"
proof (induction us arbitrary: k st)
  case Nil
  show ?case by simp
next
  case (Cons url us)
  obtain r st' where sp: "scrape_page (env k) url st = (r, st')"
    by (cases "scrape_page (env k) url st")
  from Cons.prems have "attempt_returns (env k) url" by simp
  with sp obtain b where "r = Inr b"
    using attempt_returns_iff [of "env k" url st] by (cases r) simp_all
  with sp Cons.IH [of "Suc k" st'] Cons.prems show ?case by simp
qed

lemma one_round_completes:
  assumes "list_all (\<lambda>(i, u). attempt_returns (env i) u) (enumerate k us)"
  shows "fst (one_round env pause k us st) = (case pause of None \<Rightarrow> Inr () | Some e \<Rightarrow> Inl e) \<and>
    fst (snd (one_round env pause k us st)) = k + length us \<and>
    calls (snd (snd (one_round env pause k us st))) = calls st @ round_calls env k us"
proof -
  obtain r k' st' where fu: "for_urls env k us st = (r, k', st')"
    by (cases "for_urls env k us st")
  have r: "r = Inr ()"
    using for_urls_completes [OF assms, of st] fu by simp
  from for_urls_prefix [of us env k st] fu r
  have "k' = k + length us"
    "calls st' = calls st @ concat (map (\<lambda>(i, u). attempt_calls (env i) u) (enumerate k us))"
    by auto
  with fu r show ?thesis
    by (cases pause) (simp_all add: one_round_def round_calls_def log_call_def)
qed

lemma one_round_calls:
  "calls (snd (snd (one_round env pause k us st))) =
     calls st
       @ concat (map (\<lambda>(i, u). attempt_calls (env i) u)
           (enumerate k (take (fst (snd (one_round env pause k us st)) - k) us)))
       @ (case fst (for_urls env k us st) of Inl e \<Rightarrow> [] | Inr u \<Rightarrow> [Time_sleep 60])"
proof -
  obtain r k' st' where fu: "for_urls env k us st = (r, k', st')"
    by (cases "for_urls env k us st")
  from for_urls_prefix [of us env k st] fu obtain n where n: "k' = k + n"
    "calls st' = calls st @ concat (map (\<lambda>(i, u). attempt_calls (env i) u) (enumerate k (take n us)))"
    by auto
  with fu show ?thesis
    by (cases r; cases pause) (simp_all add: one_round_def log_call_def)
qed

lemma while_True_completes:
  "(\<forall>j<fuel. pause_result w (r + j) = None \<and>
      list_all (\<lambda>(i, u). attempt_returns (attempt_of w i) u) (enumerate (k + j * length us) us)) \<Longrightarrow>
   fst (while_True w fuel r k us st) = None \<and>
   fst (snd (while_True w fuel r k us st)) = k + fuel * length us \<and>
   calls (snd (snd (while_True w fuel r k us st))) =
     calls st @ concat (map (\<lambda>j. round_calls (attempt_of w) (k + j * length us) us) [0..<fuel])"
proof (induction fuel arbitrary: r k st)
  case 0
  show ?case by simp
next
  case (Suc fuel)
  from Suc.prems have p0: "pause_result w r = None"
    and a0: "list_all (\<lambda>(i, u). attempt_returns (attempt_of w i) u) (enumerate k us)"
    by auto
  obtain x k' st' where ro: "one_round (attempt_of w) (pause_result w r) k us st = (x, k', st')"
    by (cases "one_round (attempt_of w) (pause_result w r) k us st")
  from one_round_completes [OF a0, of "pause_result w r" st] ro p0
  have x: "x = Inr ()" and k': "k' = k + length us"
    and cs: "calls st' = calls st @ round_calls (attempt_of w) k us"
    by simp_all
  have rest: "\<forall>j<fuel. pause_result w (Suc r + j) = None \<and>
      list_all (\<lambda>(i, u). attempt_returns (attempt_of w i) u)
        (enumerate (k' + j * length us) us)"
  proof (intro allI impI)
    fix j assume "j < fuel"
    then have "Suc j < Suc fuel" by simp
    with Suc.prems have "pause_result w (r + Suc j) = None \<and>
      list_all (\<lambda>(i, u). attempt_returns (attempt_of w i) u)
        (enumerate (k + Suc j * length us) us)"
      by blast
    then show "pause_result w (Suc r + j) = None \<and>
      list_all (\<lambda>(i, u). attempt_returns (attempt_of w i) u)
        (enumerate (k' + j * length us) us)"
      by (simp add: k' add.assoc)
  qed
  from Suc.IH [OF rest, of st'] ro x k' cs show ?case
    by (simp add: map_upt_Suc add.assoc del: upt_Suc)
qed

section \<open>The driving loop\<close>

text \<open>
  Claim C5. When the environment lets each of the \<open>N\<close> attempts of a round return,
  whatever booleans they return, the round makes exactly \<open>N\<close> calls of
  \<^verbatim>\<open>scrape_page\<close>, attempt \<open>i\<close> of the round on URL \<open>i\<close> of the list, and then calls
  \<^verbatim>\<open>time.sleep(60)\<close>, as the last call of the round: the URLs fetched are those of the
  list, each once, in list order, before the pause. The loop goes on to the next URL after
  an attempt that returns, whichever boolean it returns. In any round the calls are those of
  the attempts on a prefix of the list, followed by the pause exactly when the \<^verbatim>\<open>for\<close> loop
  completed. When the server starts, the startup line is printed, and the attempts and the
  pauses of the first rounds of \<^verbatim>\<open>main\<close> do not raise, the calls of \<^verbatim>\<open>main\<close> are the two
  startup calls followed by the calls of these rounds, one round after the other. The URLs
  of the fixed list are pairwise distinct.
\<close>

theorem round_visits_in_order:
  "(list_all (\<lambda>(i, u). attempt_returns (env i) u) (enumerate k us) \<longrightarrow>
      fst (one_round env pause k us st) = (case pause of None \<Rightarrow> Inr () | Some e \<Rightarrow> Inl e) \<and>
      fst (snd (one_round env pause k us st)) = k + length us \<and>
      calls (snd (snd (one_round env pause k us st))) = calls st @ round_calls env k us) \<and>
   fetched (round_calls env k us) = us \<and>
   attempt_returns (env k) url =
     (case fst (scrape_page (env k) url st) of Inl e \<Rightarrow> False | Inr b \<Rightarrow> True) \<and>
   (\<forall>b. fst (scrape_page (env k) url st) = Inr b \<longrightarrow>
      for_urls env k (url # us) st =
        for_urls env (Suc k) us (snd (scrape_page (env k) url st))) \<and>
   calls (snd (snd (one_round env pause k us st))) =
     calls st
       @ concat (map (\<lambda>(i, u). attempt_calls (env i) u)
           (enumerate k (take (fst (snd (one_round env pause k us st)) - k) us)))
       @ (case fst (for_urls env k us st) of Inl e \<Rightarrow> [] | Inr u \<Rightarrow> [Time_sleep 60]) \<and>
   (start_result w = None \<and> startup_print_result w = None \<and>
    (\<forall>r<fuel. pause_result w r = None \<and>
       list_all (\<lambda>(i, u). attempt_returns (attempt_of w i) u)
         (enumerate (r * length urls) urls)) \<longrightarrow>
      fst (main w fuel) = None \<and>
      fst (snd (main w fuel)) = fuel * length urls \<and>
      calls (snd (snd (main w fuel))) =
        [Start_http_server 8000, Print ''Prometheus metrics server started on port 8000'']
          @ concat (map (\<lambda>r. round_calls (attempt_of w) (r * length urls) urls) [0..<fuel])) \<and>
   distinct urls"
proof -
  have step: "for_urls env k (url # us) st =
      for_urls env (Suc k) us (snd (scrape_page (env k) url st))"
    if "fst (scrape_page (env k) url st) = Inr b" for b
    using that by (cases "scrape_page (env k) url st") simp
  have run: "fst (main w fuel) = None \<and>
      fst (snd (main w fuel)) = fuel * length urls \<and>
      calls (snd (snd (main w fuel))) =
        [Start_http_server 8000, Print ''Prometheus metrics server started on port 8000'']
          @ concat (map (\<lambda>r. round_calls (attempt_of w) (r * length urls) urls) [0..<fuel])"
    if "start_result w = None" "startup_print_result w = None"
      "\<forall>r<fuel. pause_result w r = None \<and>
         list_all (\<lambda>(i, u). attempt_returns (attempt_of w i) u)
           (enumerate (r * length urls) urls)"
    using that
      while_True_completes [of fuel w 0 0 urls
        "snd (print None ''Prometheus metrics server started on port 8000''
               (snd (start_http_server None 8000 initial)))"]
    by (simp add: main_def print_def start_http_server_def log_call_def initial_def)
  have round: "list_all (\<lambda>(i, u). attempt_returns (env i) u) (enumerate k us) \<longrightarrow>
      fst (one_round env pause k us st) = (case pause of None \<Rightarrow> Inr () | Some e \<Rightarrow> Inl e) \<and>
      fst (snd (one_round env pause k us st)) = k + length us \<and>
      calls (snd (snd (one_round env pause k us st))) = calls st @ round_calls env k us"
    using one_round_completes [of env k us pause st] by blast
  have dist: "distinct urls"
    by (simp add: urls_def)
  from step have next_url: "\<forall>b. fst (scrape_page (env k) url st) = Inr b \<longrightarrow>
      for_urls env k (url # us) st =
        for_urls env (Suc k) us (snd (scrape_page (env k) url st))"
    by blast
  from run have rounds: "start_result w = None \<and> startup_print_result w = None \<and>
    (\<forall>r<fuel. pause_result w r = None \<and>
       list_all (\<lambda>(i, u). attempt_returns (attempt_of w i) u)
         (enumerate (r * length urls) urls)) \<longrightarrow>
      fst (main w fuel) = None \<and>
      fst (snd (main w fuel)) = fuel * length urls \<and>
      calls (snd (snd (main w fuel))) =
        [Start_http_server 8000, Print ''Prometheus metrics server started on port 8000'']
          @ concat (map (\<lambda>r. round_calls (attempt_of w) (r * length urls) urls) [0..<fuel])"
    by blast
  show ?thesis
    using round fetched_round_calls [of env k us] attempt_returns_iff [of "env k" url st]
      next_url one_round_calls [of env pause k us st] rounds dist
    by (intro conjI) assumption+
qed

lemma attempt_returns_example:
  "attempt_returns attempt_ok u" "attempt_returns attempt_refused u"
  "\<not> attempt_returns attempt_interrupted u" "\<not> attempt_returns attempt_pipe u"
  by (simp_all add: attempt_returns_def block_ok block_refused block_interrupted block_pipe
        handler_example)

lemma env_example_returns: "attempt_returns (env_example k) u"
  by (simp add: env_example_def attempt_returns_example)

theorem round_visits_in_order_witness:
  "list_all (\<lambda>(i, u). attempt_returns (env_example i) u) (enumerate 0 urls) \<and>
   fst (scrape_page (env_example 1) ''http://example.org'' initial) = Inr False \<and>
   fst (one_round env_example None 0 urls initial) = Inr () \<and>
   fst (snd (one_round env_example None 0 urls initial)) = 3 \<and>
   fetched (calls (snd (snd (one_round env_example None 0 urls initial)))) =
     [''http://example.com'', ''http://example.org'', ''http://example.net''] \<and>
   last (calls (snd (snd (one_round env_example None 0 urls initial)))) = Time_sleep 60 \<and>
   start_result world_example = None \<and> startup_print_result world_example = None \<and>
   pause_result world_example 0 = None \<and> pause_result world_example 1 = None \<and>
   list_all (\<lambda>(i, u). attempt_returns (attempt_of world_example i) u) (enumerate 3 urls) \<and>
   fst (main world_example 2) = None \<and>
   fst (snd (main world_example 2)) = 6 \<and>
   fetched (calls (snd (snd (main world_example 2)))) = urls @ urls"
proof -
  have all: "list_all (\<lambda>(i, u). attempt_returns (env_example i) u) (enumerate k us)" for k us
    by (simp add: list_all_iff env_example_returns split_beta)
  have w: "start_result world_example = None" "startup_print_result world_example = None"
    "pause_result world_example r = None" "attempt_of world_example = env_example" for r
    by (simp_all add: world_example_def)
  have f: "fst (scrape_page (env_example 1) ''http://example.org'' initial) = Inr False"
    by (simp add: env_example_def scrape_page_refused)
  have len: "length urls = 3"
    by (simp add: urls_def)
  have ci: "calls initial = []"
    by (simp add: initial_def)
  note t = round_visits_in_order [of env_example 0 urls None initial "''http://example.org''"
      world_example 2]
  from t all [of 0 urls]
  have r: "fst (one_round env_example None 0 urls initial) = Inr ()"
    "fst (snd (one_round env_example None 0 urls initial)) = 0 + length urls"
    "calls (snd (snd (one_round env_example None 0 urls initial))) =
       calls initial @ round_calls env_example 0 urls"
    by simp_all
  have hyp: "\<forall>r<2. pause_result world_example r = None \<and>
      list_all (\<lambda>(i, u). attempt_returns (attempt_of world_example i) u)
        (enumerate (r * length urls) urls)"
    using all w by simp
  from t w(1,2) hyp
  have m: "fst (main world_example 2) = None"
    "fst (snd (main world_example 2)) = 2 * length urls"
    "calls (snd (snd (main world_example 2))) =
       [Start_http_server 8000, Print ''Prometheus metrics server started on port 8000'']
         @ concat (map (\<lambda>r. round_calls (attempt_of world_example) (r * length urls) urls)
             [0..<2])"
    by blast+
  have two: "[0..<2] = [0, Suc 0]"
    by (simp add: numeral_2_eq_2)
  have fr: "fetched (calls (snd (snd (one_round env_example None 0 urls initial)))) = urls"
    "last (calls (snd (snd (one_round env_example None 0 urls initial)))) = Time_sleep 60"
    using ci by (simp_all add: r(3) fetched_append fetched_round_calls fetched_attempts
          round_calls_def)
  have fm: "fetched (calls (snd (snd (main world_example 2)))) = urls @ urls"
    by (simp add: m(3) two fetched_append fetched_round_calls)
  from all [of 0 urls] all [of 3 urls] f r(1,2) fr w m(1,2) fm len show ?thesis
    by (simp add: urls_def)
qed

section \<open>Monotonic counters\<close>

lemma counters_le_refl: "counters_le st st"
  by (simp add: counters_le_def)

lemma counters_le_trans: "counters_le a b \<Longrightarrow> counters_le b c \<Longrightarrow> counters_le a c"
  by (auto simp add: counters_le_def)

lemma scrape_page_counters_le: "counters_le st (snd (scrape_page a url st))"
  by (cases a url rule: attempt_cases) (simp_all add: counters_le_def scrape_page_paths)

lemma for_urls_counters_le: "counters_le st (snd (snd (for_urls env k us st)))"
proof (induction us arbitrary: k st)
  case Nil
  show ?case by (simp add: counters_le_refl)
next
  case (Cons url us)
  obtain r st' where sp: "scrape_page (env k) url st = (r, st')"
    by (cases "scrape_page (env k) url st")
  have le: "counters_le st st'"
    using scrape_page_counters_le [of st "env k" url] sp by simp
  show ?case
  proof (cases r)
    case (Inl e)
    with sp le show ?thesis by simp
  next
    case (Inr b)
    with sp le Cons.IH [of st' "Suc k"] show ?thesis
      by (auto intro: counters_le_trans)
  qed
qed

lemma one_round_counters_le: "counters_le st (snd (snd (one_round env pause k us st)))"
proof -
  obtain r k' st' where fu: "for_urls env k us st = (r, k', st')"
    by (cases "for_urls env k us st")
  with for_urls_counters_le [of st env k us] show ?thesis
    by (cases r; cases pause) (simp_all add: one_round_def log_call_def counters_le_def)
qed

lemma while_True_counters_le: "counters_le st (snd (snd (while_True w fuel r k us st)))"
proof (induction fuel arbitrary: r k st)
  case 0
  show ?case by (simp add: counters_le_refl)
next
  case (Suc fuel)
  obtain x k' st' where ro: "one_round (attempt_of w) (pause_result w r) k us st = (x, k', st')"
    by (cases "one_round (attempt_of w) (pause_result w r) k us st")
  have le: "counters_le st st'"
    using one_round_counters_le [of st "attempt_of w" "pause_result w r" k us] ro by simp
  show ?case
  proof (cases x)
    case (Inl e)
    with ro le show ?thesis by simp
  next
    case (Inr u)
    with ro le Suc.IH [of st' "Suc r" k'] show ?thesis
      by (auto intro: counters_le_trans)
  qed
qed

lemma main_counters_le: "counters_le initial (snd (snd (main w fuel)))"
proof (cases "start_result w")
  case (Some e)
  then show ?thesis
    by (simp add: main_def start_http_server_def log_call_def counters_le_def)
next
  case None
  show ?thesis
  proof (cases "startup_print_result w")
    case (Some e)
    with None show ?thesis
      by (simp add: main_def start_http_server_def print_def log_call_def counters_le_def)
  next
    case no_raise: None
    have "counters_le initial
        (snd (print None ''Prometheus metrics server started on port 8000''
               (snd (start_http_server None 8000 initial))))"
      by (simp add: start_http_server_def print_def log_call_def counters_le_def)
    then have "counters_le initial
        (snd (snd (while_True w fuel 0 0 urls
           (snd (print None ''Prometheus metrics server started on port 8000''
                  (snd (start_http_server None 8000 initial)))))))"
      using while_True_counters_le counters_le_trans by blast
    with None no_raise show ?thesis
      by (simp add: main_def start_http_server_def print_def)
  qed
qed

text \<open>
  Claim C6. \<^verbatim>\<open>SCRAPES_TOTAL\<close> and \<^verbatim>\<open>SCRAPE_ERRORS\<close> both start at 0. No operation of the
  program decreases either of them: not one of the metric operations, \<^verbatim>\<open>print\<close> or
  \<^verbatim>\<open>start_http_server\<close>, not a call of \<^verbatim>\<open>scrape_page\<close>, not a round, not any number of
  rounds of the loop, whether they complete or raise. Both are non-negative integers after
  any number of rounds of \<^verbatim>\<open>main\<close>.
\<close>

theorem counters_never_decrease:
  "SCRAPES_TOTAL initial = 0 \<and> SCRAPE_ERRORS initial = 0 \<and>
   counters_le st (SCRAPES_TOTAL_inc st) \<and>
   counters_le st (SCRAPE_ERRORS_inc st) \<and>
   counters_le st (ACTIVE_SCRAPERS_inc st) \<and>
   counters_le st (ACTIVE_SCRAPERS_dec st) \<and>
   counters_le st (SCRAPE_DURATION_observe d st) \<and>
   counters_le st (snd (print raised s st)) \<and>
   counters_le st (snd (start_http_server raised port st)) \<and>
   counters_le st (snd (scrape_page a url st)) \<and>
   counters_le st (snd (snd (one_round env pause k us st))) \<and>
   counters_le st (snd (snd (while_True w fuel r k us st))) \<and>
   0 \<le> SCRAPES_TOTAL (snd (snd (main w fuel))) \<and>
   0 \<le> SCRAPE_ERRORS (snd (snd (main w fuel)))"
proof -
  have prim: "counters_le st (SCRAPES_TOTAL_inc st)" "counters_le st (SCRAPE_ERRORS_inc st)"
    "counters_le st (ACTIVE_SCRAPERS_inc st)" "counters_le st (ACTIVE_SCRAPERS_dec st)"
    "counters_le st (SCRAPE_DURATION_observe d st)"
    "counters_le st (snd (print raised s st))"
    "counters_le st (snd (start_http_server raised port st))"
    by (simp_all add: counters_le_def SCRAPES_TOTAL_inc_def SCRAPE_ERRORS_inc_def
          ACTIVE_SCRAPERS_inc_def ACTIVE_SCRAPERS_dec_def SCRAPE_DURATION_observe_def
          print_def start_http_server_def log_call_def split: option.split)
  have "0 \<le> SCRAPES_TOTAL (snd (snd (main w fuel)))"
    "0 \<le> SCRAPE_ERRORS (snd (snd (main w fuel)))"
    using main_counters_le [of w fuel] by (simp_all add: counters_le_def initial_def)
  with prim show ?thesis
    by (simp add: initial_def scrape_page_counters_le one_round_counters_le
          while_True_counters_le)
qed

section \<open>What holds while the loop runs\<close>

lemma scrape_page_running_inv:
  assumes "fst (scrape_page a url st) = Inr b" "running_inv st"
  shows "running_inv (snd (scrape_page a url st))"
  using assms
  by (cases a url rule: attempt_cases)
     (simp_all add: running_inv_def count_inv_def scrape_page_paths)

lemma for_urls_running_inv:
  "fst (for_urls env k us st) = Inr () \<Longrightarrow> running_inv st \<Longrightarrow>
     running_inv (snd (snd (for_urls env k us st)))"
proof (induction us arbitrary: k st)
  case Nil
  then show ?case by simp
next
  case (Cons url us)
  obtain r st' where sp: "scrape_page (env k) url st = (r, st')"
    by (cases "scrape_page (env k) url st")
  show ?case
  proof (cases r)
    case (Inl e)
    with sp Cons.prems show ?thesis by simp
  next
    case (Inr b)
    have "running_inv st'"
      using scrape_page_running_inv [of "env k" url st b] sp Inr Cons.prems by simp
    with sp Inr Cons.IH [of "Suc k" st'] Cons.prems show ?thesis by simp
  qed
qed

lemma one_round_running_inv:
  assumes "fst (one_round env pause k us st) = Inr ()" "running_inv st"
  shows "running_inv (snd (snd (one_round env pause k us st)))"
proof -
  obtain r k' st' where fu: "for_urls env k us st = (r, k', st')"
    by (cases "for_urls env k us st")
  with assms for_urls_running_inv [of env k us st] show ?thesis
    by (cases r; cases pause)
       (simp_all add: one_round_def log_call_def running_inv_def count_inv_def)
qed

lemma while_True_running_inv:
  "fst (while_True w fuel r k us st) = None \<Longrightarrow> running_inv st \<Longrightarrow>
     running_inv (snd (snd (while_True w fuel r k us st)))"
proof (induction fuel arbitrary: r k st)
  case 0
  then show ?case by simp
next
  case (Suc fuel)
  obtain x k' st' where ro: "one_round (attempt_of w) (pause_result w r) k us st = (x, k', st')"
    by (cases "one_round (attempt_of w) (pause_result w r) k us st")
  show ?case
  proof (cases x)
    case (Inl e)
    with ro Suc.prems show ?thesis by simp
  next
    case (Inr u)
    have "running_inv st'"
      using one_round_running_inv [of "attempt_of w" "pause_result w r" k us st] ro Inr Suc.prems
      by simp
    with ro Inr Suc.IH [of "Suc r" k' st'] Suc.prems show ?thesis by simp
  qed
qed

lemma main_running_inv:
  assumes "fst (main w fuel) = None"
  shows "running_inv (snd (snd (main w fuel)))"
proof (cases "start_result w")
  case (Some e)
  with assms show ?thesis
    by (simp add: main_def start_http_server_def)
next
  case None
  show ?thesis
  proof (cases "startup_print_result w")
    case (Some e)
    with None assms show ?thesis
      by (simp add: main_def start_http_server_def print_def)
  next
    case no_raise: None
    have "running_inv
        (snd (print None ''Prometheus metrics server started on port 8000''
               (snd (start_http_server None 8000 initial))))"
      by (simp add: start_http_server_def print_def log_call_def running_inv_def count_inv_def
            initial_def)
    with None no_raise assms show ?thesis
      by (simp add: main_def start_http_server_def print_def while_True_running_inv)
  qed
qed

lemma world_example_simps:
  "start_result world_example = None" "startup_print_result world_example = None"
  "pause_result world_example r = None" "attempt_of world_example = env_example"
  by (simp_all add: world_example_def)

lemma env_example_simps:
  "env_example 0 = attempt_ok" "env_example (Suc 0) = attempt_refused"
  "env_example (Suc (Suc n)) = attempt_ok"
  by (simp_all add: env_example_def)

lemma main_example:
  "fst (main world_example 1) = None \<and>
   stdout (snd (snd (main world_example 1))) =
     [''Prometheus metrics server started on port 8000'',
      ''Error scraping http://example.org: Connection refused''] \<and>
   SCRAPE_DURATION (snd (snd (main world_example 1))) = [3/2, 3/2, 3/2] \<and>
   SCRAPES_TOTAL (snd (snd (main world_example 1))) = 2 \<and>
   SCRAPE_ERRORS (snd (snd (main world_example 1))) = 1"
  by (simp add: main_def one_round_def urls_def world_example_simps env_example_simps
        scrape_page_ok scrape_page_refused initial_def log_call_def print_def
        start_http_server_def)

section \<open>Standard output\<close>

lemma scrape_page_stdout:
  "stdout (snd (scrape_page a url st)) =
     stdout st @
       (case fst (block a url) of
          Inl (Exception c m) \<Rightarrow>
            (case str_result a (Exception c m) of
               Inl e \<Rightarrow> []
             | Inr s \<Rightarrow>
                 (case print_result a (''Error scraping '' @ url @ '': '' @ s) of
                    Some e \<Rightarrow> []
                  | None \<Rightarrow> [''Error scraping '' @ url @ '': '' @ s]))
        | Inl (BaseException c m) \<Rightarrow> []
        | Inr u \<Rightarrow> [])"
  by (cases a url rule: attempt_cases) (simp_all add: scrape_page_paths)

lemma lines_of_error_line:
  "(lines_of (''Error scraping '' @ url @ '': '' @ s) = 1) =
     (CHR 0x0A \<notin> set url \<and> CHR 0x0A \<notin> set s)"
  by (simp add: lines_of_def count_list_0_iff)

lemma error_line_intro:
  "url \<in> set us \<Longrightarrow> error_line us (''Error scraping '' @ url @ '': '' @ m)"
  by (auto simp add: error_line_def list_ex_iff intro!: bexI [of _ url])

lemma scrape_page_stdout_inv:
  assumes "url \<in> set us" "stdout_inv us st"
  shows "stdout_inv us (snd (scrape_page a url st))"
proof (cases a url rule: attempt_cases)
  case (failure c m s)
  with assms error_line_intro [of url us s] show ?thesis
    by (cases "stdout st") (simp_all add: stdout_inv_def scrape_page_failure)
qed (use assms in \<open>simp_all add: stdout_inv_def scrape_page_paths\<close>)

lemma for_urls_stdout_inv:
  "set vs \<subseteq> set us \<Longrightarrow> stdout_inv us st \<Longrightarrow>
     stdout_inv us (snd (snd (for_urls env k vs st)))"
proof (induction vs arbitrary: k st)
  case Nil
  then show ?case by simp
next
  case (Cons url vs)
  obtain r st' where sp: "scrape_page (env k) url st = (r, st')"
    by (cases "scrape_page (env k) url st")
  have inv: "stdout_inv us st'"
    using scrape_page_stdout_inv [of url us st "env k"] Cons.prems sp by simp
  show ?case
  proof (cases r)
    case (Inl e)
    with sp inv show ?thesis by simp
  next
    case (Inr b)
    with sp inv Cons.IH [of st' "Suc k"] Cons.prems show ?thesis by simp
  qed
qed

lemma one_round_stdout_inv:
  assumes "set vs \<subseteq> set us" "stdout_inv us st"
  shows "stdout_inv us (snd (snd (one_round env pause k vs st)))"
proof -
  obtain r k' st' where fu: "for_urls env k vs st = (r, k', st')"
    by (cases "for_urls env k vs st")
  with for_urls_stdout_inv [OF assms, of env k] show ?thesis
    by (cases r; cases pause) (simp_all add: one_round_def log_call_def stdout_inv_def)
qed

lemma while_True_stdout_inv:
  "set vs \<subseteq> set us \<Longrightarrow> stdout_inv us st \<Longrightarrow>
     stdout_inv us (snd (snd (while_True w fuel r k vs st)))"
proof (induction fuel arbitrary: r k st)
  case 0
  then show ?case by simp
next
  case (Suc fuel)
  obtain x k' st' where ro: "one_round (attempt_of w) (pause_result w r) k vs st = (x, k', st')"
    by (cases "one_round (attempt_of w) (pause_result w r) k vs st")
  have inv: "stdout_inv us st'"
    using one_round_stdout_inv [of vs us st "attempt_of w" "pause_result w r" k] Suc.prems ro
    by simp
  show ?case
  proof (cases x)
    case (Inl e)
    with ro inv show ?thesis by simp
  next
    case (Inr u)
    with ro inv Suc.IH [of st' "Suc r" k'] Suc.prems show ?thesis by simp
  qed
qed

lemma main_stdout:
  "if start_result w = None \<and> startup_print_result w = None
   then stdout_inv urls (snd (snd (main w fuel)))
   else stdout (snd (snd (main w fuel))) = []"
proof (cases "start_result w")
  case (Some e)
  then show ?thesis
    by (simp add: main_def start_http_server_def log_call_def initial_def)
next
  case None
  show ?thesis
  proof (cases "startup_print_result w")
    case (Some e)
    with None show ?thesis
      by (simp add: main_def start_http_server_def print_def log_call_def initial_def)
  next
    case no_raise: None
    have "stdout_inv urls
        (snd (print None ''Prometheus metrics server started on port 8000''
               (snd (start_http_server None 8000 initial))))"
      by (simp add: start_http_server_def print_def log_call_def stdout_inv_def initial_def)
    with None no_raise show ?thesis
      by (simp add: main_def start_http_server_def print_def while_True_stdout_inv)
  qed
qed

text \<open>
  Claim C7, as the code has it. A call of \<^verbatim>\<open>scrape_page\<close> whose timed block raises an
  instance of \<^verbatim>\<open>Exception\<close>, and whose handler completes, writes with one call of
  \<^verbatim>\<open>print\<close> the text \<^verbatim>\<open>Error scraping {url}: {str(e)}\<close>, with the failing URL and the text of
  the exception; that is exactly one line when neither the URL nor the text of the exception
  contains a newline, and the URLs of the list contain none. Every other call writes
  nothing: when the block completes, when it raises an exception that is not an instance
  of \<^verbatim>\<open>Exception\<close>, and when \<^verbatim>\<open>str(e)\<close> or \<^verbatim>\<open>print\<close> raises in the handler. At startup
  \<^verbatim>\<open>main\<close> writes one line, which says that the metrics server has started, when the
  server starts and the \<^verbatim>\<open>print\<close> completes, and nothing at all otherwise. After any number
  of rounds the output is that line followed by error texts for URLs of the list only, at
  most one for each error counted, and exactly one for each while the loop runs: there is no
  other output.
\<close>

theorem stdout_lines:
  "stdout (snd (scrape_page a url st)) =
     stdout st @
       (case fst (block a url) of
          Inl (Exception c m) \<Rightarrow>
            (case str_result a (Exception c m) of
               Inl e \<Rightarrow> []
             | Inr s \<Rightarrow>
                 (case print_result a (''Error scraping '' @ url @ '': '' @ s) of
                    Some e \<Rightarrow> []
                  | None \<Rightarrow> [''Error scraping '' @ url @ '': '' @ s]))
        | Inl (BaseException c m) \<Rightarrow> []
        | Inr u \<Rightarrow> []) \<and>
   (lines_of (''Error scraping '' @ url @ '': '' @ s) = 1) =
     (CHR 0x0A \<notin> set url \<and> CHR 0x0A \<notin> set s) \<and>
   list_all (\<lambda>u. CHR 0x0A \<notin> set u) urls \<and>
   lines_of ''Prometheus metrics server started on port 8000'' = 1 \<and>
   (if start_result w = None \<and> startup_print_result w = None
    then stdout_inv urls (snd (snd (main w fuel)))
    else stdout (snd (snd (main w fuel))) = []) \<and>
   (fst (main w fuel) = None \<longrightarrow>
      int (length (stdout (snd (snd (main w fuel))))) =
        SCRAPE_ERRORS (snd (snd (main w fuel))) + 1)"
proof -
  have nl: "list_all (\<lambda>u. CHR 0x0A \<notin> set u) urls"
    "lines_of ''Prometheus metrics server started on port 8000'' = 1"
    by (simp_all add: urls_def lines_of_def)
  have run: "fst (main w fuel) = None \<longrightarrow>
      int (length (stdout (snd (snd (main w fuel))))) =
        SCRAPE_ERRORS (snd (snd (main w fuel))) + 1"
    using main_running_inv [of w fuel] by (simp add: running_inv_def)
  show ?thesis
    using scrape_page_stdout [of a url st] lines_of_error_line [of url s] nl
      main_stdout [of w fuel] run
    by (intro conjI) assumption+
qed

theorem stdout_lines_witness:
  "stdout (snd (scrape_page attempt_refused ''http://example.org'' initial)) =
     [''Error scraping http://example.org: Connection refused''] \<and>
   lines_of ''Error scraping http://example.org: Connection refused'' = 1 \<and>
   stdout (snd (scrape_page attempt_ok ''http://example.com'' initial)) = [] \<and>
   start_result world_example = None \<and> startup_print_result world_example = None \<and>
   fst (main world_example 1) = None \<and>
   stdout (snd (snd (main world_example 1))) =
     [''Prometheus metrics server started on port 8000'',
      ''Error scraping http://example.org: Connection refused''] \<and>
   stdout_inv urls (snd (snd (main world_example 1))) \<and>
   SCRAPE_ERRORS (snd (snd (main world_example 1))) = 1"
proof -
  note t = stdout_lines [of attempt_refused "''http://example.org''" initial
      "''Connection refused''" world_example 1]
  from t have r: "stdout (snd (scrape_page attempt_refused ''http://example.org'' initial)) =
      [''Error scraping http://example.org: Connection refused'']"
    by (simp add: block_refused handler_example initial_def)
  from t have l: "lines_of ''Error scraping http://example.org: Connection refused'' = 1"
    by (simp add: lines_of_def)
  from t have m: "stdout_inv urls (snd (snd (main world_example 1)))"
    by (simp add: world_example_simps)
  have ok: "stdout (snd (scrape_page attempt_ok ''http://example.com'' initial)) = []"
    by (simp add: scrape_page_ok initial_def)
  from r l m ok main_example show ?thesis
    by (simp add: world_example_simps)
qed

text \<open>
  Claim C7 as stated fails. An attempt whose exception has a text of two lines writes two
  lines. An attempt that fails while standard output is a closed pipe is counted as an
  error and writes nothing. An attempt that a \<^verbatim>\<open>KeyboardInterrupt\<close> ends writes nothing.
\<close>

theorem failed_attempts_without_one_line:
  "fst (block attempt_two_lines ''http://example.com'') =
     Inl (Exception ''HTTPError'' (''Bad Gateway'' @ [CHR 0x0A] @ ''try later'')) \<and>
   fst (scrape_page attempt_two_lines ''http://example.com'' initial) = Inr False \<and>
   map lines_of (stdout (snd (scrape_page attempt_two_lines ''http://example.com'' initial))) =
     [2] \<and>
   fst (block attempt_pipe ''http://example.com'') =
     Inl (Exception ''ConnectionError'' ''Connection refused'') \<and>
   SCRAPE_ERRORS (snd (scrape_page attempt_pipe ''http://example.com'' initial)) = 1 \<and>
   stdout (snd (scrape_page attempt_pipe ''http://example.com'' initial)) = [] \<and>
   fst (block attempt_interrupted ''http://example.com'') =
     Inl (BaseException ''KeyboardInterrupt'' '''') \<and>
   stdout (snd (scrape_page attempt_interrupted ''http://example.com'' initial)) = []"
  by (simp add: block_two_lines block_pipe block_interrupted scrape_page_two_lines
        scrape_page_pipe scrape_page_interrupted initial_def lines_of_def)

section \<open>The duration summary\<close>




section \<open>The names of the metrics\<close>

text \<open>
  Claim C8. The module creates four metrics, each once, under the names
  \<^verbatim>\<open>scraper_pages_scraped_total\<close>, \<^verbatim>\<open>scraper_errors_total\<close>,
  \<^verbatim>\<open>scraper_scrape_duration_seconds\<close> and \<^verbatim>\<open>scraper_active_scrapers\<close>, and no others: the
  first two are counters, bound to \<^verbatim>\<open>SCRAPES_TOTAL\<close> (incremented on success) and
  \<^verbatim>\<open>SCRAPE_ERRORS\<close> (incremented on failure), the third is the summary bound to
  \<^verbatim>\<open>SCRAPE_DURATION\<close>, the fourth is the gauge bound to \<^verbatim>\<open>ACTIVE_SCRAPERS\<close>.
\<close>

theorem metric_names:
  "map (metric_name \<circ> snd) module_globals =
     [''scraper_pages_scraped_total'', ''scraper_errors_total'',
      ''scraper_scrape_duration_seconds'', ''scraper_active_scrapers''] \<and>
   distinct (map (metric_name \<circ> snd) module_globals) \<and>
   distinct (map fst module_globals) \<and>
   length module_globals = 4 \<and>
   map_of module_globals ''SCRAPES_TOTAL'' =
     Some (Counter ''scraper_pages_scraped_total'' ''Total number of pages scraped'') \<and>
   map_of module_globals ''SCRAPE_ERRORS'' =
     Some (Counter ''scraper_errors_total'' ''Total number of scraping errors'') \<and>
   map_of module_globals ''SCRAPE_DURATION'' =
     Some (Summary ''scraper_scrape_duration_seconds'' ''Time spent scraping pages'') \<and>
   map_of module_globals ''ACTIVE_SCRAPERS'' =
     Some (Gauge ''scraper_active_scrapers'' ''Number of active scrapers'')"
  by (simp add: module_globals_def)

section \<open>The simulated delay\<close>

lemma uniform_bounds:
  assumes "0 \<le> r" "r \<le> 1"
  shows "1/2 \<le> uniform (1/2) 2 r \<and> uniform (1/2) 2 r \<le> 2"
  using assms by (simp add: uniform_def)

lemma block_sleep:
  "Time_sleep d \<in> set (snd (block a url)) \<Longrightarrow> d = uniform (1/2) 2 (random_random a)"
  by (auto simp add: block_def Let_def split: sum.splits option.splits)

lemma block_calls_parsed:
  assumes "session_get a url = Inr body" "BeautifulSoup a body = None"
  shows "snd (block a url) =
    [Session_get url, Soup body, Random_uniform (1/2) 2,
     Time_sleep (uniform (1/2) 2 (random_random a))]"
  using assms by (simp add: block_def Let_def split: option.split)

lemma scrape_page_calls_shape:
  "\<exists>rest. calls (snd (scrape_page a url st)) =
      calls st @ [Gauge_inc, Timer_enter] @ snd (block a url) @ rest \<and>
    (\<forall>d. Time_sleep d \<notin> set rest)"
proof (cases a url rule: attempt_cases)
  case success
  show ?thesis
    unfolding scrape_page_success [OF success]
    by (intro exI [of _ "[Timer_exit (observed a), Scrapes_inc, Gauge_dec]"]) simp
next
  case (propagate c m)
  show ?thesis
    unfolding scrape_page_propagate [OF propagate]
    by (intro exI [of _ "[Timer_exit (observed a), Gauge_dec]"]) simp
next
  case (failure c m s)
  show ?thesis
    unfolding scrape_page_failure [OF failure]
    by (intro exI [of _ "[Timer_exit (observed a), Errors_inc,
          Print (''Error scraping '' @ url @ '': '' @ s), Gauge_dec]"]) simp
next
  case (str_raises c m e)
  show ?thesis
    unfolding scrape_page_str_raises [OF str_raises]
    by (intro exI [of _ "[Timer_exit (observed a), Errors_inc, Gauge_dec]"]) simp
next
  case (print_raises c m s e)
  show ?thesis
    unfolding scrape_page_print_raises [OF print_raises]
    by (intro exI [of _ "[Timer_exit (observed a), Errors_inc,
          Print (''Error scraping '' @ url @ '': '' @ s), Gauge_dec]"]) simp
qed

lemma scrape_page_sleep:
  assumes "Time_sleep d \<in> set (drop (length (calls st)) (calls (snd (scrape_page a url st))))"
  shows "d = uniform (1/2) 2 (random_random a)"
proof -
  from scrape_page_calls_shape [of a url st] obtain rest where
    "calls (snd (scrape_page a url st)) =
       calls st @ [Gauge_inc, Timer_enter] @ snd (block a url) @ rest"
    "\<forall>d. Time_sleep d \<notin> set rest"
    by blast
  with assms have "Time_sleep d \<in> set (snd (block a url))"
    by auto
  then show ?thesis
    by (rule block_sleep)
qed

text \<open>
  Claim C9. In a call of \<^verbatim>\<open>scrape_page\<close> whose fetch and parse complete, the calls are the
  gauge increment, the start of the timer, the fetch, the parse,
  \<^verbatim>\<open>random.uniform(0.5, 2)\<close> and then \<^verbatim>\<open>time.sleep\<close> on the value drawn, and no other call
  of \<^verbatim>\<open>time.sleep\<close> follows. Every delay a call of \<^verbatim>\<open>scrape_page\<close> sleeps for is that draw,
  and lies between 0.5 and 2.0 when the unit draw behind it lies between 0 and 1; every
  value of the interval from 0.5 to 2.0 is the delay of some unit draw.
\<close>

theorem delay_in_interval:
  "(\<forall>body. session_get a url = Inr body \<and> BeautifulSoup a body = None \<longrightarrow>
      (\<exists>rest. calls (snd (scrape_page a url st)) =
         calls st @ [Gauge_inc, Timer_enter, Session_get url, Soup body,
           Random_uniform (1/2) 2, Time_sleep (uniform (1/2) 2 (random_random a))] @ rest \<and>
         (\<forall>d. Time_sleep d \<notin> set rest))) \<and>
   (\<forall>d. Time_sleep d \<in> set (drop (length (calls st)) (calls (snd (scrape_page a url st)))) \<longrightarrow>
      d = uniform (1/2) 2 (random_random a)) \<and>
   (0 \<le> random_random a \<and> random_random a \<le> 1 \<longrightarrow>
      (\<forall>d. Time_sleep d \<in> set (drop (length (calls st)) (calls (snd (scrape_page a url st)))) \<longrightarrow>
         1/2 \<le> d \<and> d \<le> 2)) \<and>
   (0 \<le> r \<and> r \<le> 1 \<longrightarrow> 1/2 \<le> uniform (1/2) 2 r \<and> uniform (1/2) 2 r \<le> 2) \<and>
   (1/2 \<le> x \<and> x \<le> 2 \<longrightarrow> (\<exists>r'. 0 \<le> r' \<and> r' \<le> 1 \<and> uniform (1/2) 2 r' = x))"
proof -
  have shape: "\<exists>rest. calls (snd (scrape_page a url st)) =
         calls st @ [Gauge_inc, Timer_enter, Session_get url, Soup body,
           Random_uniform (1/2) 2, Time_sleep (uniform (1/2) 2 (random_random a))] @ rest \<and>
         (\<forall>d. Time_sleep d \<notin> set rest)"
    if "session_get a url = Inr body" "BeautifulSoup a body = None" for body
    using scrape_page_calls_shape [of a url st] block_calls_parsed [OF that] by simp
  have draw: "d = uniform (1/2) 2 (random_random a)"
    if "Time_sleep d \<in> set (drop (length (calls st)) (calls (snd (scrape_page a url st))))"
    for d
    using that by (rule scrape_page_sleep)
  have sleeps: "1/2 \<le> d \<and> d \<le> 2"
    if "0 \<le> random_random a" "random_random a \<le> 1"
      "Time_sleep d \<in> set (drop (length (calls st)) (calls (snd (scrape_page a url st))))"
    for d
    using that draw [of d] uniform_bounds [of "random_random a"] by simp
  have onto: "\<exists>r'. 0 \<le> r' \<and> r' \<le> 1 \<and> uniform (1/2) 2 r' = x" if "1/2 \<le> x" "x \<le> 2"
    using that by (intro exI [of _ "(x - 1/2) / (3/2)"]) (simp add: uniform_def field_simps)
  from shape draw sleeps onto uniform_bounds [of r] show ?thesis by blast
qed

theorem delay_in_interval_witness:
  "session_get attempt_ok ''http://example.com'' = Inr ''<html></html>'' \<and>
   BeautifulSoup attempt_ok ''<html></html>'' = None \<and>
   0 \<le> random_random attempt_ok \<and> random_random attempt_ok \<le> 1 \<and>
   uniform (1/2) 2 (random_random attempt_ok) = 1 \<and>
   calls (snd (scrape_page attempt_ok ''http://example.com'' initial)) =
     [Gauge_inc, Timer_enter, Session_get ''http://example.com'', Soup ''<html></html>'',
      Random_uniform (1/2) 2, Time_sleep 1, Timer_exit (3/2), Scrapes_inc, Gauge_dec] \<and>
   Time_sleep 1 \<in> set (drop (length (calls initial))
     (calls (snd (scrape_page attempt_ok ''http://example.com'' initial)))) \<and>
   (1/2 :: real) \<le> 1 \<and> (1 :: real) \<le> 2 \<and>
   (0 :: real) \<le> 1/3 \<and> (1/3 :: real) \<le> 1 \<and>
   uniform (1/2) 2 (1/3) = 1"
proof -
  have env: "session_get attempt_ok ''http://example.com'' = Inr ''<html></html>''"
    "BeautifulSoup attempt_ok ''<html></html>'' = None" "random_random attempt_ok = 1/3"
    by (simp_all add: attempt_ok_def)
  have cs: "calls (snd (scrape_page attempt_ok ''http://example.com'' initial)) =
     [Gauge_inc, Timer_enter, Session_get ''http://example.com'', Soup ''<html></html>'',
      Random_uniform (1/2) 2, Time_sleep 1, Timer_exit (3/2), Scrapes_inc, Gauge_dec]"
    by (simp add: scrape_page_ok initial_def)
  have mem: "Time_sleep 1 \<in> set (drop (length (calls initial))
     (calls (snd (scrape_page attempt_ok ''http://example.com'' initial))))"
    by (simp add: cs) (simp add: initial_def)
  have u: "uniform (1/2) 2 (random_random attempt_ok) = 1"
    "0 \<le> random_random attempt_ok" "random_random attempt_ok \<le> 1"
    by (simp_all add: env(3) uniform_def)
  from delay_in_interval [of attempt_ok "''http://example.com''" initial "1/3" 1] env mem
  have "uniform (1/2) 2 (1/3) = 1"
    by (simp add: uniform_def)
  with env(1,2) u cs mem show ?thesis
    by simp
qed

end
